theory Spec2Isabelle
  imports Main "HOL-Library.Word"
begin

unbundle bit_operations_syntax

section \<open>Go strings and the library calls the mailer makes\<close>

text \<open>
  A Go \<open>string\<close> is a sequence of bytes and \<open>len\<close> counts bytes; it is modelled as a
  \<open>char list\<close> (an Isabelle \<open>char\<close> is one byte). A \<open>[]byte\<close> whose elements take part in
  arithmetic is a list of 8-bit words.
\<close>

type_synonym byte = "8 word"

abbreviation CR :: char where "CR \<equiv> CHR 0x0D"
abbreviation LF :: char where "LF \<equiv> CHR 0x0A"
abbreviation CRLF :: string where "CRLF \<equiv> [CR, LF]"

text \<open>Run-time panics of the Go program that the modelled functions can raise.\<close>

datatype panic = slice_bounds_out_of_range

text \<open>\<open>strings.HasPrefix\<close>: \<open>len(s) >= len(prefix) && s[:len(prefix)] == prefix\<close>.\<close>

definition HasPrefix :: "string \<Rightarrow> string \<Rightarrow> bool" where
  "HasPrefix s pre = (length pre \<le> length s \<and> take (length pre) s = pre)"

text \<open>\<open>strings.Index\<close> and \<open>strings.LastIndex\<close>: the byte offset of the first (last)
  occurrence of \<open>substr\<close>, or \<open>-1\<close>.\<close>

fun Index :: "string \<Rightarrow> string \<Rightarrow> int" where
  "Index [] substr = (if substr = [] then 0 else -1)"
| "Index (c # cs) substr =
     (if HasPrefix (c # cs) substr then 0
      else (let r = Index cs substr in if r < 0 then -1 else r + 1))"

fun LastIndex :: "string \<Rightarrow> string \<Rightarrow> int" where
  "LastIndex [] substr = (if substr = [] then 0 else -1)"
| "LastIndex (c # cs) substr =
     (let r = LastIndex cs substr in
      if 0 \<le> r then r + 1 else if HasPrefix (c # cs) substr then 0 else -1)"

text \<open>\<open>strings.Contains(s, substr)\<close> is \<open>Index(s, substr) >= 0\<close>.\<close>

definition Contains :: "string \<Rightarrow> string \<Rightarrow> bool" where
  "Contains s substr = (0 \<le> Index s substr)"

text \<open>The slice expression \<open>s[lo:hi]\<close> on a string panics unless
  \<open>0 <= lo <= hi <= len(s)\<close>.\<close>

definition slice :: "string \<Rightarrow> int \<Rightarrow> int \<Rightarrow> panic + string" where
  "slice s lo hi =
     (if 0 \<le> lo \<and> lo \<le> hi \<and> hi \<le> int (length s)
      then Inr (take (nat (hi - lo)) (drop (nat lo) s))
      else Inl slice_bounds_out_of_range)"

text \<open>\<open>strings.SplitN(s, sep, 2)\<close> for a non-empty separator: cut at the first
  occurrence of \<open>sep\<close>, or return \<open>s\<close> alone. Every call in the program passes the
  constant \<open>"\r\n\r\n"\<close> or \<open>": "\<close>.\<close>

definition SplitN2 :: "string \<Rightarrow> string \<Rightarrow> string list" where
  "SplitN2 s sep =
     (let m = Index s sep in
      if m < 0 then [s] else [take (nat m) s, drop (nat m + length sep) s])"

text \<open>\<open>strings.Split(s, sep)\<close>: cut at every occurrence of \<open>sep\<close>, left to right. The
  program only splits at \<open>"\r\n"\<close>; for the empty separator Go returns one string per
  UTF-8 sequence, which for ASCII text is one string per byte.\<close>

function Split :: "string \<Rightarrow> string \<Rightarrow> string list" where
  "Split s sep =
     (if sep = [] then map (\<lambda>c. [c]) s
      else (let m = Index s sep in
            if m < 0 then [s]
            else take (nat m) s # Split (drop (nat m + length sep) s) sep))"
  by pat_completeness auto
termination
proof (relation "measure (\<lambda>(s, sep). length s)")
  show "wf (measure (\<lambda>(s, sep). length s))" by simp
next
  fix s sep :: string and m :: int
  assume sep: "sep \<noteq> []" and m: "m = Index s sep" and nn: "\<not> m < 0"
  from m nn sep have "s \<noteq> []" by (cases s) auto
  moreover from sep have "0 < length sep" by simp
  ultimately show "((drop (nat m + length sep) s, sep), (s, sep)) \<in> measure (\<lambda>(s, sep). length s)"
    by simp
qed

declare Split.simps [simp del]

text \<open>\<open>strings.Join(elems, sep)\<close>.\<close>

fun Join :: "string list \<Rightarrow> string \<Rightarrow> string" where
  "Join [] sep = []"
| "Join [x] sep = x"
| "Join (x # y # ys) sep = x @ sep @ Join (y # ys) sep"

text \<open>\<open>strings.TrimRight(s, cutset)\<close> for an ASCII cutset: drop the trailing bytes that
  occur in \<open>cutset\<close>.\<close>

definition TrimRight :: "string \<Rightarrow> string \<Rightarrow> string" where
  "TrimRight s cutset = rev (dropWhile (\<lambda>c. c \<in> set cutset) (rev s))"

text \<open>
  \<open>strings.ToLower\<close> and \<open>strings.TrimSpace\<close> follow Unicode tables on text that is not
  ASCII. The functions below that call them take them as the parameters \<open>ToLower\<close> and
  \<open>TrimSpace\<close>, so every theorem holds for whatever the library computes. On ASCII text
  both take a byte-wise path, which \<open>asciiToLower\<close> and \<open>asciiTrimSpace\<close> write out; they
  instantiate the parameters on concrete ASCII inputs.
\<close>

definition asciiToLower :: "string \<Rightarrow> string" where
  "asciiToLower s =
     map (\<lambda>c. if (65::nat) \<le> of_char c \<and> of_char c \<le> (90::nat)
               then char_of (of_char c + (32::nat)) else c) s"

definition asciiSpace :: "char \<Rightarrow> bool" where
  "asciiSpace c = (c \<in> set [CHR 0x09, LF, CHR 0x0B, CHR 0x0C, CR, CHR '' ''])"

definition asciiTrimSpace :: "string \<Rightarrow> string" where
  "asciiTrimSpace s = rev (dropWhile asciiSpace (rev (dropWhile asciiSpace s)))"


section \<open>Header model and message assembly\<close>

text \<open>\<open>normalizeLineEndings\<close> is \<open>strings.ReplaceAll(input, "\n", "\r\n")\<close>: the old
  string is the single byte LF, so the replacement acts on each byte by itself.\<close>

definition normalizeLineEndings :: "string \<Rightarrow> string" where
  "normalizeLineEndings input = concat (map (\<lambda>c. if c = LF then CRLF else [c]) input)"

text \<open>The loop of \<open>parseHeaders\<close> over the header lines: it stops at the first empty
  line and stores a pair only when the line holds \<open>": "\<close>.\<close>

fun parseHeaders_loop ::
  "(string \<Rightarrow> string) \<Rightarrow> (string \<Rightarrow> string) \<Rightarrow> string list \<Rightarrow>
   (string \<rightharpoonup> string) \<Rightarrow> (string \<rightharpoonup> string)" where
  "parseHeaders_loop ToLower TrimSpace [] headers = headers"
| "parseHeaders_loop ToLower TrimSpace (line # lines) headers =
     (if line = [] then headers
      else (case SplitN2 line '': '' of
              [k, v] \<Rightarrow> parseHeaders_loop ToLower TrimSpace lines
                          (headers(TrimSpace (ToLower k) \<mapsto> TrimSpace v))
            | _ \<Rightarrow> parseHeaders_loop ToLower TrimSpace lines headers))"

definition parseHeaders ::
  "(string \<Rightarrow> string) \<Rightarrow> (string \<Rightarrow> string) \<Rightarrow> string \<Rightarrow> (string \<rightharpoonup> string)" where
  "parseHeaders ToLower TrimSpace rawContent =
     (let parts = SplitN2 rawContent (CRLF @ CRLF);
          headerPart = hd parts;
          lines = Split headerPart CRLF
      in parseHeaders_loop ToLower TrimSpace lines Map.empty)"

text \<open>\<open>extractEmailFromHeaders\<close>: the slice \<open>value[start : end+1]\<close> is the only place
  that can panic.\<close>

definition extractEmailFromHeaders ::
  "(string \<Rightarrow> string) \<Rightarrow> (string \<rightharpoonup> string) \<Rightarrow> string \<Rightarrow> panic + string" where
  "extractEmailFromHeaders ToLower headers headerKey =
     (case headers (ToLower headerKey) of
        Some v \<Rightarrow>
          (if Contains v ''<'' \<and> Contains v ''>''
           then (let start = LastIndex v ''<''; end = LastIndex v ''>''
                 in slice v start (end + 1))
           else Inr v)
      | None \<Rightarrow> Inr [])"

definition isValidEmail :: "string \<Rightarrow> bool" where
  "isValidEmail email = (Contains email ''@'' \<and> Contains email ''.'')"


section \<open>The send operation\<close>

text \<open>The text fields of the \<open>GUI\<close> struct that \<open>sendEmail\<close> reads.\<close>

record GUI =
  messageEnt :: string
  hostEnt :: string
  portEnt :: string
  usernameEnt :: string
  passwordEnt :: string
  socksPortEnt :: string

text \<open>
  What the outside world answers in one send: for each call that can fail, \<open>None\<close> when it
  succeeds and \<open>Some e\<close> when it returns an error whose text is \<open>e\<close>.
\<close>

record network =
  socks5_err :: "string option"
  dial_err :: "string option"
  newclient_err :: "string option"
  starttls_err :: "string option"
  auth_err :: "string option"
  mail_err :: "string option"
  rcpt_err :: "string option"
  data_err :: "string option"
  write_err :: "string option"

text \<open>
  The observable actions of a send, in the order they are issued: the two user-interface
  actions (error dialog, status label) and the calls on the proxy dialer, the connection,
  the SMTP client and the data writer.
\<close>

datatype event =
    ShowError string
  | SetStatus string
  | SOCKS5 string
  | Dial string
  | NewClient string
  | StartTLS
  | Auth string string string
  | Mail string
  | Rcpt string
  | Data
  | Write string
  | Close_w
  | Quit
  | Close_conn

fun is_network :: "event \<Rightarrow> bool" where
  "is_network (ShowError _) = False"
| "is_network (SetStatus _) = False"
| "is_network _ = True"

text \<open>\<open>if err != nil { updateStatus(...); showError(...); return }\<close>, else go on.\<close>

definition on_error :: "string option \<Rightarrow> string \<Rightarrow> string \<Rightarrow> event list \<Rightarrow> event list" where
  "on_error err status_prefix dialog_prefix continue =
     (case err of
        Some e \<Rightarrow> [SetStatus (status_prefix @ e), ShowError (dialog_prefix @ e)]
      | None \<Rightarrow> continue)"

text \<open>The body of the goroutine from \<open>client.Mail\<close> on; \<open>defer w.Close()\<close> runs when the
  function returns after \<open>client.Data\<close> has succeeded.\<close>

definition smtp_envelope :: "network \<Rightarrow> string \<Rightarrow> string \<Rightarrow> string \<Rightarrow> event list" where
  "smtp_envelope net from to message =
     [SetStatus ''Sending MAIL FROM...'', Mail from] @
     on_error (mail_err net) ''MAIL FROM Error: '' ''MAIL FROM failed: ''
      ([SetStatus ''Sending RCPT TO...'', Rcpt to] @
       on_error (rcpt_err net) ''RCPT TO Error: '' ''RCPT TO failed: ''
        ([SetStatus ''Sending DATA...'', Data] @
         on_error (data_err net) ''DATA Error: '' ''DATA failed: ''
          ([Write message] @
           on_error (write_err net) ''Write Error: '' ''Message write failed: ''
             [SetStatus ''Email sent successfully'']
           @ [Close_w])))"

text \<open>The whole goroutine. The deferred \<open>client.Quit()\<close> and \<open>conn.Close()\<close> run, in
  that order, on every return after they were registered.\<close>

definition smtp_session :: "network \<Rightarrow> GUI \<Rightarrow> string \<Rightarrow> string \<Rightarrow> string \<Rightarrow> event list" where
  "smtp_session net g from to message =
     [SetStatus ''Connecting to SOCKS proxy...'', SOCKS5 (''127.0.0.1:'' @ socksPortEnt g)] @
     on_error (socks5_err net) ''SOCKS Error: '' ''SOCKS5 error: ''
      ([SetStatus ''Connecting to SMTP server...'', Dial (hostEnt g @ '':'' @ portEnt g)] @
       on_error (dial_err net) ''Connection Error: '' ''Connection failed: ''
        ([SetStatus ''Starting SMTP handshake...'', NewClient (hostEnt g)] @
         on_error (newclient_err net) ''SMTP Init Error: '' ''SMTP init failed: ''
          ([SetStatus ''Starting TLS...'', StartTLS] @
           on_error (starttls_err net) ''TLS Error: '' ''TLS failed: ''
            (if usernameEnt g \<noteq> [] \<and> passwordEnt g \<noteq> []
             then [SetStatus ''Authenticating...'',
                   Auth (usernameEnt g) (passwordEnt g) (hostEnt g)] @
                  on_error (auth_err net) ''Auth Error: '' ''Auth failed: ''
                    (smtp_envelope net from to message)
             else smtp_envelope net from to message)
           @ [Quit])
         @ [Close_conn]))"

text \<open>The two synthesized header lines: empty when the parsed headers already hold the
  key. \<open>msgid\<close> is the value \<open>generateMessageID()\<close> returned and \<open>date\<close> the formatted
  current time.\<close>

definition messageIDHeader :: "(string \<rightharpoonup> string) \<Rightarrow> string \<Rightarrow> string" where
  "messageIDHeader headers msgid =
     (if headers ''message-id'' = None then ''Message-ID: '' @ msgid @ CRLF else [])"

definition dateHeader :: "(string \<rightharpoonup> string) \<Rightarrow> string \<Rightarrow> string" where
  "dateHeader headers date =
     (if headers ''date'' = None then ''Date: '' @ date @ CRLF else [])"

text \<open>
  The source file holds two revisions of the program, one after the other, and so two
  functions \<open>sendEmail\<close>. They differ only in the message they hand to the writer.

  The \<open>sendEmail\<close> at line 761 appends the synthesized lines to the header block
  (the new value of \<open>rawContent\<close>, lines 781-786).
\<close>

definition sendEmail_l761_rawContent :: "string \<Rightarrow> string \<Rightarrow> string \<Rightarrow> string" where
  "sendEmail_l761_rawContent rawContent mid dat =
     (case SplitN2 rawContent (CRLF @ CRLF) of
        [h, b] \<Rightarrow> h @ CRLF @ mid @ dat @ CRLF @ CRLF @ b
      | _ \<Rightarrow> rawContent @ CRLF @ mid @ dat @ CRLF)"

text \<open>
  The \<open>sendEmail\<close> at line 1418 computes the same text first (lines 1441-1449) and then
  overwrites it (lines 1451-1469): it walks over the header lines and appends the
  synthesized lines after each line that starts with \<open>subject:\<close>.
\<close>

fun sendEmail_l1418_loop ::
  "(string \<Rightarrow> string) \<Rightarrow> string \<Rightarrow> string \<Rightarrow> string list \<Rightarrow> string list \<Rightarrow> string list" where
  "sendEmail_l1418_loop ToLower mid dat [] newHeaders = newHeaders"
| "sendEmail_l1418_loop ToLower mid dat (header # headers) newHeaders =
     (let n1 = newHeaders @ [header];
          n2 = (if HasPrefix (ToLower header) ''subject:''
                then (let n3 = (if mid \<noteq> [] then n1 @ [TrimRight mid CRLF] else n1)
                      in if dat \<noteq> [] then n3 @ [TrimRight dat CRLF] else n3)
                else n1)
      in sendEmail_l1418_loop ToLower mid dat headers n2)"

definition sendEmail_l1418_fullMessage ::
  "(string \<Rightarrow> string) \<Rightarrow> string \<Rightarrow> string \<Rightarrow> string \<Rightarrow> string" where
  "sendEmail_l1418_fullMessage ToLower rawContent mid dat =
     (case SplitN2 rawContent (CRLF @ CRLF) of
        [h, b] \<Rightarrow>
          Join (sendEmail_l1418_loop ToLower mid dat (Split h CRLF) []) CRLF @ CRLF @ CRLF @ b
      | _ \<Rightarrow> rawContent @ CRLF @ mid @ dat @ CRLF)"

definition invalid_address :: string where
  "invalid_address = ''Invalid '' @ [CHR 0x27] @ ''From'' @ [CHR 0x27] @ '' or '' @
                     [CHR 0x27] @ ''To'' @ [CHR 0x27] @ '' address''"

text \<open>
  \<open>sendEmail\<close>, with the assembly step as a parameter: normalize, parse, extract both
  addresses (either extraction can panic), validate, assemble, and run the session.
\<close>

definition sendEmail_with ::
  "((string \<rightharpoonup> string) \<Rightarrow> string \<Rightarrow> string) \<Rightarrow>
   (string \<Rightarrow> string) \<Rightarrow> (string \<Rightarrow> string) \<Rightarrow> network \<Rightarrow> GUI \<Rightarrow> panic + event list" where
  "sendEmail_with assemble ToLower TrimSpace net g =
     (let rawContent = normalizeLineEndings (messageEnt g);
          headers = parseHeaders ToLower TrimSpace rawContent
      in case extractEmailFromHeaders ToLower headers ''from'' of
           Inl p \<Rightarrow> Inl p
         | Inr from \<Rightarrow>
            (case extractEmailFromHeaders ToLower headers ''to'' of
               Inl p \<Rightarrow> Inl p
             | Inr to \<Rightarrow>
                 if \<not> isValidEmail from \<or> \<not> isValidEmail to
                 then Inr [ShowError invalid_address]
                 else Inr (SetStatus ''Starting SMTP session...'' #
                           smtp_session net g from to (assemble headers rawContent))))"

definition sendEmail_l761 ::
  "(string \<Rightarrow> string) \<Rightarrow> (string \<Rightarrow> string) \<Rightarrow> string \<Rightarrow> string \<Rightarrow>
   network \<Rightarrow> GUI \<Rightarrow> panic + event list" where
  "sendEmail_l761 ToLower TrimSpace msgid date =
     sendEmail_with
       (\<lambda>headers rawContent. sendEmail_l761_rawContent rawContent
            (messageIDHeader headers msgid) (dateHeader headers date))
       ToLower TrimSpace"

definition sendEmail_l1418 ::
  "(string \<Rightarrow> string) \<Rightarrow> (string \<Rightarrow> string) \<Rightarrow> string \<Rightarrow> string \<Rightarrow>
   network \<Rightarrow> GUI \<Rightarrow> panic + event list" where
  "sendEmail_l1418 ToLower TrimSpace msgid date =
     sendEmail_with
       (\<lambda>headers rawContent. sendEmail_l1418_fullMessage ToLower rawContent
            (messageIDHeader headers msgid) (dateHeader headers date))
       ToLower TrimSpace"


text \<open>The header lines the loop of the second \<open>sendEmail\<close> adds after a subject line:
  each synthesized header that is not empty, without its line terminator.\<close>

definition synthesized :: "string \<Rightarrow> string \<Rightarrow> string list" where
  "synthesized mid dat =
     (if mid \<noteq> [] then [TrimRight mid CRLF] else []) @
     (if dat \<noteq> [] then [TrimRight dat CRLF] else [])"


section \<open>The esub token scheme\<close>

text \<open>\<open>encoding/hex\<close>: \<open>EncodeToString\<close> writes two characters of \<open>hextable\<close> per byte;
  \<open>DecodeString\<close> reads pairs through \<open>reverseHexTable\<close>, which maps both cases of a hex
  digit to its value and every other byte to \<open>0xff\<close>. It fails at the first byte that is
  not a hex digit, and with \<open>ErrLength\<close> on an odd length.\<close>

definition hextable :: string where
  "hextable = ''0123456789abcdef''"

fun EncodeToString :: "byte list \<Rightarrow> string" where
  "EncodeToString [] = []"
| "EncodeToString (v # src) =
     hextable ! unat (drop_bit 4 v) # hextable ! unat (v AND 0x0f) # EncodeToString src"

definition reverseHexTable :: "char \<Rightarrow> byte" where
  "reverseHexTable c =
     (let n = of_char c :: nat in
      if 48 \<le> n \<and> n \<le> 57 then of_nat (n - 48)
      else if 97 \<le> n \<and> n \<le> 102 then of_nat (n - 87)
      else if 65 \<le> n \<and> n \<le> 70 then of_nat (n - 55)
      else 0xff)"

datatype hex_error = InvalidByteError char | ErrLength

fun DecodeString :: "string \<Rightarrow> hex_error + byte list" where
  "DecodeString [] = Inr []"
| "DecodeString [p] =
     (if reverseHexTable p > 0x0f then Inl (InvalidByteError p) else Inl ErrLength)"
| "DecodeString (p # q # src) =
     (let a = reverseHexTable p; b = reverseHexTable q in
      if a > 0x0f then Inl (InvalidByteError p)
      else if b > 0x0f then Inl (InvalidByteError q)
      else (case DecodeString src of
              Inl err \<Rightarrow> Inl err
            | Inr dst \<Rightarrow> Inr ((push_bit 4 a OR b) # dst)))"

text \<open>
  The cryptographic primitives come from libraries outside the repository and are
  parameters of the model: Argon2id (password, salt, time, memory, threads, key length),
  the ChaCha20 key stream of a key and a nonce (its byte at each position, from position 0
  of a fresh cipher), and SHA3-256.
\<close>

record primitives =
  argon2_IDKey :: "byte list \<Rightarrow> byte list \<Rightarrow> nat \<Rightarrow> nat \<Rightarrow> nat \<Rightarrow> nat \<Rightarrow> byte list"
  chacha20_keystream :: "byte list \<Rightarrow> byte list \<Rightarrow> nat \<Rightarrow> byte"
  sha3_Sum256 :: "byte list \<Rightarrow> byte list"

text \<open>The conversion \<open>[]byte(s)\<close>.\<close>

definition bytes :: "string \<Rightarrow> byte list" where
  "bytes s = map of_char s"

text \<open>\<open>chacha20.NewUnauthenticatedCipher\<close> refuses a key that is not 32 bytes long and
  a nonce that is neither 12 nor 24 bytes long.\<close>

datatype cipher_err = wrong_key_size | wrong_nonce_size

definition NewUnauthenticatedCipher ::
  "byte list \<Rightarrow> byte list \<Rightarrow> cipher_err + (byte list \<times> byte list)" where
  "NewUnauthenticatedCipher k nonce =
     (if length k \<noteq> 32 then Inl wrong_key_size
      else if length nonce = 24 \<or> length nonce = 12 then Inr (k, nonce)
      else Inl wrong_nonce_size)"

text \<open>\<open>cipher.XORKeyStream(dst, src)\<close> panics when \<open>dst\<close> is shorter than \<open>src\<close>;
  otherwise it writes \<open>src\<close> XOR key stream over the first \<open>len(src)\<close> bytes of \<open>dst\<close>.
  The result is the new content of \<open>dst\<close>.\<close>

datatype crypto_panic = output_smaller_than_input | read_failed | cipher_failed cipher_err

definition XORKeyStream ::
  "primitives \<Rightarrow> byte list \<times> byte list \<Rightarrow> byte list \<Rightarrow> byte list \<Rightarrow> crypto_panic + byte list" where
  "XORKeyStream P cipher dst src =
     (if length dst < length src then Inl output_smaller_than_input
      else Inr (map (\<lambda>i. src ! i XOR chacha20_keystream P (fst cipher) (snd cipher) i)
                    [0..<length src]
                @ drop (length src) dst))"

record esub =
  key :: string
  subject :: string

definition deriveKey :: "primitives \<Rightarrow> esub \<Rightarrow> byte list" where
  "deriveKey P e =
     argon2_IDKey P (bytes (key e)) (bytes ''fixed-salt-1234'') 3 (64 * 1024) 4 32"

definition esubtest :: "primitives \<Rightarrow> esub \<Rightarrow> crypto_panic + bool" where
  "esubtest P e =
     (if length (subject e) \<noteq> 48 then Inr False
      else (case DecodeString (subject e) of
              Inl err \<Rightarrow> Inr False
            | Inr esubBytes \<Rightarrow>
               if length esubBytes \<noteq> 24 then Inr False
               else (let nonce = take 12 esubBytes;
                         receivedCiphertext = drop 12 esubBytes;
                         k = deriveKey P e
                     in case NewUnauthenticatedCipher k nonce of
                          Inl err \<Rightarrow> Inr False
                        | Inr cipher \<Rightarrow>
                           (let textHash = sha3_Sum256 P (bytes ''text'');
                                expectedCiphertext = replicate 12 0
                            in case XORKeyStream P cipher expectedCiphertext (take 12 textHash) of
                                 Inl p \<Rightarrow> Inl p
                               | Inr expectedCiphertext \<Rightarrow>
                                   Inr (EncodeToString expectedCiphertext =
                                        EncodeToString receivedCiphertext)))))"

text \<open>\<open>esubgen\<close>; \<open>drawn\<close> is what \<open>rand.Read\<close> left in the 12-byte buffer \<open>nonce\<close>, or
  \<open>None\<close> when it returned an error.\<close>

definition esubgen :: "primitives \<Rightarrow> byte list option \<Rightarrow> esub \<Rightarrow> crypto_panic + string" where
  "esubgen P drawn e =
     (case drawn of
        None \<Rightarrow> Inl read_failed
      | Some nonce \<Rightarrow>
         (let k = deriveKey P e in
          case NewUnauthenticatedCipher k nonce of
            Inl err \<Rightarrow> Inl (cipher_failed err)
          | Inr cipher \<Rightarrow>
             (let textHash = sha3_Sum256 P (bytes ''text'');
                  ciphertext = replicate 12 0
              in case XORKeyStream P cipher ciphertext (take 12 textHash) of
                   Inl p \<Rightarrow> Inl p
                 | Inr ciphertext \<Rightarrow> Inr (EncodeToString (nonce @ ciphertext)))))"

text \<open>Mapping the hex digits \<open>a\<close> to \<open>f\<close> of a token to upper case.\<close>

definition toUpperHex :: "char \<Rightarrow> char" where
  "toUpperHex c =
     (let n = of_char c :: nat in if 97 \<le> n \<and> n \<le> 102 then char_of (n - 32) else c)"


section \<open>The identifier generator\<close>

text \<open>\<open>fmt.Sprintf("%d", n)\<close> for an integer: decimal digits, with a minus sign for a
  negative number.\<close>

fun digits :: "nat \<Rightarrow> string" where
  "digits n = (if n < 10 then [char_of (48 + n)]
               else digits (n div 10) @ [char_of (48 + n mod 10)])"

declare digits.simps [simp del]

definition FormatInt :: "int \<Rightarrow> string" where
  "FormatInt i = (if i < 0 then ''-'' @ digits (nat (- i)) else digits (nat i))"

definition alphanumeric :: string where
  "alphanumeric = ''abcdefghijklmnopqrstuvwxyz0123456789''"

text \<open>
  \<open>generateMessageID\<close>. \<open>rand_Int k max\<close> is the value the \<open>k\<close>-th call of
  \<open>rand.Int(rand.Reader, max)\<close> returns (the function makes 17 calls), which the library
  draws from \<open>[0, max)\<close>; \<open>unixTime\<close> is \<open>time.Now().Unix()\<close>. The letters of the host
  name and of the top-level domain are computed in byte arithmetic, \<open>'a' + byte(index)\<close>.
\<close>

definition generateMessageID :: "(nat \<Rightarrow> nat \<Rightarrow> nat) \<Rightarrow> int \<Rightarrow> string" where
  "generateMessageID rand_Int unixTime =
     (let randomPart1 = map (\<lambda>i. alphanumeric ! rand_Int i 36) [0..<10];
          randomHostname =
            map (\<lambda>i. char_of (unat ((0x61 :: byte) + of_nat (rand_Int (10 + i) 26)))) [0..<5];
          randomTLD =
            map (\<lambda>i. char_of (unat ((0x61 :: byte) + of_nat (rand_Int (15 + i) 26)))) [0..<2]
      in ''<'' @ randomPart1 @ ''.'' @ FormatInt unixTime @ ''@'' @ randomHostname @
         ''.'' @ randomTLD @ ''>'')"

text \<open>The character classes of the shape \<open><[a-z0-9]{10}\.\d+@[a-z]{5}\.[a-z]{2}>\<close>.\<close>

definition lower_letter :: "char \<Rightarrow> bool" where
  "lower_letter c = ((97::nat) \<le> of_char c \<and> of_char c \<le> (122::nat))"

definition decimal_digit :: "char \<Rightarrow> bool" where
  "decimal_digit c = ((48::nat) \<le> of_char c \<and> of_char c \<le> (57::nat))"


text \<open>Stand-ins for the three primitives, with the output lengths of the real ones, for
  running the token scheme on concrete inputs.\<close>

definition example_primitives :: primitives where
  "example_primitives =
     \<lparr>argon2_IDKey = (\<lambda>password salt time memory threads keyLen. replicate keyLen 0x2a),
      chacha20_keystream = (\<lambda>k nonce i. of_nat i),
      sha3_Sum256 = (\<lambda>data. replicate 32 0x11)\<rparr>"

text \<open>An environment in which every network call succeeds.\<close>

definition all_succeed :: network where
  "all_succeed =
     \<lparr>socks5_err = None, dial_err = None, newclient_err = None, starttls_err = None,
      auth_err = None, mail_err = None, rcpt_err = None, data_err = None, write_err = None\<rparr>"


section \<open>Properties of the string functions\<close>

lemma Index_cut:
  "0 \<le> Index s sep \<Longrightarrow>
   s = take (nat (Index s sep)) s @ sep @ drop (nat (Index s sep) + length sep) s"
proof (induction s)
  case Nil
  then show ?case by (simp split: if_splits)
next
  case (Cons c cs)
  show ?case
  proof (cases "HasPrefix (c # cs) sep")
    case True
    then have "take (length sep) (c # cs) = sep" by (simp add: HasPrefix_def)
    then have "c # cs = sep @ drop (length sep) (c # cs)"
      by (metis append_take_drop_id)
    with True show ?thesis by simp
  next
    case False
    with Cons.prems have r: "0 \<le> Index cs sep"
      by (simp add: Let_def split: if_splits)
    with False have m: "Index (c # cs) sep = Index cs sep + 1" by (simp add: Let_def)
    from r have n: "nat (Index cs sep + 1) = Suc (nat (Index cs sep))" by simp
    from Cons.IH [OF r] show ?thesis unfolding m n by simp
  qed
qed

lemma SplitN2_two: "SplitN2 s sep = [h, b] \<Longrightarrow> s = h @ sep @ b"
  using Index_cut [of s sep]
  by (auto simp: SplitN2_def Let_def split: if_splits)

lemma Join_Cons: "xs \<noteq> [] \<Longrightarrow> Join (x # xs) sep = x @ sep @ Join xs sep"
  by (cases xs) simp_all

lemma Split_nonempty: "Split s sep \<noteq> [] \<or> (sep = [] \<and> s = [])"
  by (subst Split.simps) (simp add: Let_def)

text \<open>Splitting at a non-empty separator and joining again gives the text back.\<close>

lemma Join_Split: "sep \<noteq> [] \<Longrightarrow> Join (Split s sep) sep = s"
proof (induction s sep rule: Split.induct)
  case (1 s sep)
  show ?case
  proof (cases "Index s sep < 0")
    case True
    with "1.prems" show ?thesis by (subst Split.simps) simp
  next
    case False
    let ?rest = "drop (nat (Index s sep) + length sep) s"
    from False "1.prems" have sp: "Split s sep = take (nat (Index s sep)) s # Split ?rest sep"
      by (subst Split.simps) (simp add: Let_def)
    from "1.prems" have ne: "Split ?rest sep \<noteq> []"
      using Split_nonempty [of ?rest sep] by simp
    from False "1.prems" have ih: "Join (Split ?rest sep) sep = ?rest"
      using "1.IH" [of "Index s sep"] by simp
    from False have "s = take (nat (Index s sep)) s @ sep @ ?rest"
      using Index_cut [of s sep] by simp
    then show ?thesis by (simp add: sp Join_Cons [OF ne] ih)
  qed
qed

lemma LastIndex_upper:
  "0 \<le> LastIndex s substr \<Longrightarrow> LastIndex s substr + int (length substr) \<le> int (length s)"
  by (induction s) (auto simp: Let_def HasPrefix_def split: if_splits)

lemma Index_LastIndex: "0 \<le> Index s substr \<Longrightarrow> 0 \<le> LastIndex s substr"
  by (induction s) (auto simp: Let_def split: if_splits)


section \<open>Line endings\<close>

text \<open>What the replacement guarantees: in the output every LF follows a CR, and when the
  input holds no CR, every CR of the output is followed by LF and does not follow another
  CR. So on input with bare LF line breaks only, every line break of the output is CRLF.\<close>

lemma normalizeLineEndings_LF:
  "normalizeLineEndings s = xs @ LF # ys \<Longrightarrow> xs \<noteq> [] \<and> last xs = CR"
  by (induction s arbitrary: xs)
     (auto simp: normalizeLineEndings_def Cons_eq_append_conv split: if_splits)

lemma normalizeLineEndings_CR:
  "CR \<notin> set s \<Longrightarrow> normalizeLineEndings s = xs @ CR # ys \<Longrightarrow>
   ys \<noteq> [] \<and> hd ys = LF \<and> (xs \<noteq> [] \<longrightarrow> last xs \<noteq> CR)"
  by (induction s arbitrary: xs)
     (auto simp: normalizeLineEndings_def Cons_eq_append_conv split: if_splits)

text \<open>
  Claim C2: for every input, also one that already contains CRLF, the result of
  \<open>normalizeLineEndings\<close> has only CRLF line breaks, with no bare CR and no CR CR LF.
  The function replaces each LF without looking at the byte before it: on the input
  \<open>a CR LF b\<close> it returns \<open>a CR CR LF b\<close>.
\<close>

theorem normalizeLineEndings_CRLF_input:
  "normalizeLineEndings ([CHR ''a''] @ CRLF @ [CHR ''b'']) = [CHR ''a'', CR, CR, LF, CHR ''b'']"
  by (simp add: normalizeLineEndings_def)


section \<open>Address extraction\<close>

text \<open>The three cases of \<open>extractEmailFromHeaders\<close> in which it returns: the key is
  absent; the value lacks one of the brackets; the last \<open><\<close> is not behind the position
  after the last \<open>>\<close>.\<close>

lemma extractEmailFromHeaders_absent:
  "headers (ToLower headerKey) = None \<Longrightarrow>
   extractEmailFromHeaders ToLower headers headerKey = Inr []"
  by (simp add: extractEmailFromHeaders_def)

lemma extractEmailFromHeaders_raw:
  "headers (ToLower headerKey) = Some v \<Longrightarrow> \<not> (Contains v ''<'' \<and> Contains v ''>'') \<Longrightarrow>
   extractEmailFromHeaders ToLower headers headerKey = Inr v"
  by (auto simp: extractEmailFromHeaders_def)

lemma extractEmailFromHeaders_brackets:
  assumes "headers (ToLower headerKey) = Some v"
    and lt: "Contains v ''<''" and gt: "Contains v ''>''"
    and ordered: "LastIndex v ''<'' \<le> LastIndex v ''>'' + 1"
  shows "extractEmailFromHeaders ToLower headers headerKey =
           Inr (take (nat (LastIndex v ''>'' + 1 - LastIndex v ''<''))
                     (drop (nat (LastIndex v ''<'')) v))"
proof -
  from lt have s: "0 \<le> LastIndex v ''<''"
    by (simp add: Contains_def Index_LastIndex)
  from gt have "0 \<le> LastIndex v ''>''"
    by (simp add: Contains_def Index_LastIndex)
  then have e: "LastIndex v ''>'' + 1 \<le> int (length v)"
    using LastIndex_upper [of v "''>''"] by simp
  from assms s e show ?thesis
    by (simp add: extractEmailFromHeaders_def slice_def Let_def)
qed

text \<open>It panics exactly when both brackets occur and the last \<open><\<close> lies behind the
  position after the last \<open>>\<close>.\<close>

lemma extractEmailFromHeaders_panic_iff:
  "extractEmailFromHeaders ToLower headers headerKey = Inl slice_bounds_out_of_range \<longleftrightarrow>
     (\<exists>v. headers (ToLower headerKey) = Some v \<and> Contains v ''<'' \<and> Contains v ''>'' \<and>
          LastIndex v ''>'' + 1 < LastIndex v ''<'')"
proof (cases "headers (ToLower headerKey)")
  case None
  then show ?thesis by (simp add: extractEmailFromHeaders_def)
next
  case (Some v)
  show ?thesis
  proof (cases "Contains v ''<'' \<and> Contains v ''>''")
    case False
    with Some show ?thesis by (auto simp: extractEmailFromHeaders_def)
  next
    case True
    then have s: "0 \<le> LastIndex v ''<''" and "0 \<le> LastIndex v ''>''"
      by (simp_all add: Contains_def Index_LastIndex)
    then have e: "LastIndex v ''>'' + 1 \<le> int (length v)"
      using LastIndex_upper [of v "''>''"] by simp
    from Some True s e show ?thesis
      by (auto simp: extractEmailFromHeaders_def slice_def Let_def)
  qed
qed

text \<open>The two examples of the specification.\<close>

lemma extractEmailFromHeaders_example_brackets:
  "extractEmailFromHeaders asciiToLower [''from'' \<mapsto> ''Name <a@b.com>''] ''From''
     = Inr ''<a@b.com>''"
  by code_simp

lemma extractEmailFromHeaders_example_raw:
  "extractEmailFromHeaders asciiToLower [''from'' \<mapsto> ''a@b.com''] ''From'' = Inr ''a@b.com''"
  by code_simp

text \<open>
  Claim C5: for every header map and key, \<open>extractEmailFromHeaders\<close> returns the empty
  string when the key is absent, the text from the last \<open><\<close> to the last \<open>>\<close> when the
  value holds both brackets, and the raw value otherwise. The value \<open>b@y.com> <Bob\<close>
  holds both brackets, and the function returns nothing: the slice bounds are 9 and 8
  and the slice expression panics.
\<close>

theorem extractEmailFromHeaders_brackets_reversed:
  "extractEmailFromHeaders asciiToLower [''to'' \<mapsto> ''b@y.com> <Bob''] ''To''
     = Inl slice_bounds_out_of_range"
  by code_simp

text \<open>
  Claim C8: \<open>extractEmailFromHeaders\<close> never panics, and on a value such as \<open>a> b <\<close>,
  whose last \<open>>\<close> comes before its last \<open><\<close>, the slice is within bounds and
  well-ordered. On that value the bounds are 5 and 2, and the function panics.
\<close>

theorem extractEmailFromHeaders_panics:
  "LastIndex ''a> b <'' ''<'' = 5 \<and> LastIndex ''a> b <'' ''>'' + 1 = 2 \<and>
   extractEmailFromHeaders asciiToLower [''from'' \<mapsto> ''a> b <''] ''from''
     = Inl slice_bounds_out_of_range"
  by code_simp


section \<open>Message assembly\<close>

text \<open>The loop of the second \<open>sendEmail\<close> copies every header line, in order, and puts
  the synthesized lines behind each line that begins with \<open>subject:\<close>.\<close>

lemma sendEmail_l1418_loop_eq:
  "sendEmail_l1418_loop ToLower mid dat hs acc =
     acc @ concat (map (\<lambda>l. if HasPrefix (ToLower l) ''subject:''
                             then l # synthesized mid dat else [l]) hs)"
  by (induction hs arbitrary: acc) (simp_all add: synthesized_def Let_def)

lemma sendEmail_l1418_loop_no_subject:
  "\<forall>l \<in> set hs. \<not> HasPrefix (ToLower l) ''subject:'' \<Longrightarrow>
   sendEmail_l1418_loop ToLower mid dat hs [] = hs"
  by (induction hs) (simp_all add: sendEmail_l1418_loop_eq)

text \<open>The first \<open>sendEmail\<close> always appends the synthesized lines to the header block,
  whether or not there is a subject line. The second one, when the header block has no
  subject line, hands the text on as it came: nothing is added.\<close>

lemma sendEmail_l761_rawContent_appends:
  "SplitN2 rawContent (CRLF @ CRLF) = [h, b] \<Longrightarrow>
   sendEmail_l761_rawContent rawContent mid dat = h @ CRLF @ mid @ dat @ CRLF @ CRLF @ b"
  by (simp add: sendEmail_l761_rawContent_def)

lemma sendEmail_l1418_fullMessage_no_subject:
  assumes parts: "SplitN2 rawContent (CRLF @ CRLF) = [h, b]"
    and none: "\<forall>l \<in> set (Split h CRLF). \<not> HasPrefix (ToLower l) ''subject:''"
  shows "sendEmail_l1418_fullMessage ToLower rawContent mid dat = rawContent"
proof -
  have "Join (Split h CRLF) CRLF = h" by (rule Join_Split) simp
  moreover from parts have "rawContent = h @ (CRLF @ CRLF) @ b" by (rule SplitN2_two)
  ultimately show ?thesis
    using parts none
    by (simp add: sendEmail_l1418_fullMessage_def sendEmail_l1418_loop_no_subject)
qed

text \<open>A text without the blank-line separator is taken as headers only: both revisions
  append the synthesized lines and one more line terminator to it.\<close>

lemma sendEmail_l1418_fullMessage_no_separator:
  "Index rawContent (CRLF @ CRLF) < 0 \<Longrightarrow>
   sendEmail_l1418_fullMessage ToLower rawContent mid dat = rawContent @ CRLF @ mid @ dat @ CRLF"
  by (simp add: sendEmail_l1418_fullMessage_def SplitN2_def)

text \<open>
  Claim C1: with a subject line the synthesized Message-ID and Date lines come right
  after it and the header lines keep their order; without one the synthesized lines are
  appended at the end of the header block; the body is unchanged. The \<open>sendEmail\<close> that
  looks for the subject line writes the message below for a text with no subject line:
  both headers are missing from the parsed map, both are synthesized, and neither
  reaches the writer.
\<close>

theorem sendEmail_l1418_without_subject:
  "sendEmail_l1418 asciiToLower asciiTrimSpace ''<m>'' ''D'' all_succeed
     \<lparr>messageEnt = ''From: a@x.com'' @ [LF] @ ''To: b@y.com'' @ [LF, LF] @ ''body'',
      hostEnt = ''h'', portEnt = ''25'', usernameEnt = [], passwordEnt = [],
      socksPortEnt = ''9050''\<rparr>
   = Inr [SetStatus ''Starting SMTP session...'',
          SetStatus ''Connecting to SOCKS proxy...'', SOCKS5 ''127.0.0.1:9050'',
          SetStatus ''Connecting to SMTP server...'', Dial ''h:25'',
          SetStatus ''Starting SMTP handshake...'', NewClient ''h'',
          SetStatus ''Starting TLS...'', StartTLS,
          SetStatus ''Sending MAIL FROM...'', Mail ''a@x.com'',
          SetStatus ''Sending RCPT TO...'', Rcpt ''b@y.com'',
          SetStatus ''Sending DATA...'', Data,
          Write (''From: a@x.com'' @ CRLF @ ''To: b@y.com'' @ CRLF @ CRLF @ ''body''),
          SetStatus ''Email sent successfully'', Close_w, Quit, Close_conn]"
  by code_simp

text \<open>With the separator, the assembled text is the header lines in order, each subject
  line followed by the synthesized lines, then the separator and the body.\<close>

lemma sendEmail_l1418_fullMessage_spliced:
  assumes "SplitN2 rawContent (CRLF @ CRLF) = [h, b]"
  shows "sendEmail_l1418_fullMessage ToLower rawContent mid dat =
           Join (concat (map (\<lambda>l. if HasPrefix (ToLower l) ''subject:''
                                    then l # synthesized mid dat else [l])
                             (Split h CRLF))) CRLF
           @ CRLF @ CRLF @ b"
  using assms by (simp add: sendEmail_l1418_fullMessage_def sendEmail_l1418_loop_eq)

text \<open>When every network call succeeds, the assembled message is what the writer gets.\<close>

lemma smtp_session_writes:
  "Write message \<in> set (smtp_session all_succeed g from to message)"
  by (simp add: smtp_session_def smtp_envelope_def on_error_def all_succeed_def)

text \<open>
  Claim C9, as stated: whenever the header block has more than one line that begins, in
  any case, with \<open>subject:\<close>, the synthesized Message-ID and Date lines are inserted
  after every such line. A text without the blank-line separator is a header block
  alone; for such a text with two subject lines \<open>sendEmail\<close> writes the synthesized
  lines once, at the end, and none after a subject line.
\<close>

theorem sendEmail_l1418_header_only_two_subjects:
  "sendEmail_l1418 asciiToLower asciiTrimSpace ''<m>'' ''D'' all_succeed
     \<lparr>messageEnt = ''Subject: one'' @ [LF] @ ''From: a@x.com'' @ [LF] @ ''SUBJECT: two'' @
                   [LF] @ ''To: b@y.com'',
      hostEnt = ''h'', portEnt = ''25'', usernameEnt = [], passwordEnt = [],
      socksPortEnt = ''9050''\<rparr>
   = Inr [SetStatus ''Starting SMTP session...'',
          SetStatus ''Connecting to SOCKS proxy...'', SOCKS5 ''127.0.0.1:9050'',
          SetStatus ''Connecting to SMTP server...'', Dial ''h:25'',
          SetStatus ''Starting SMTP handshake...'', NewClient ''h'',
          SetStatus ''Starting TLS...'', StartTLS,
          SetStatus ''Sending MAIL FROM...'', Mail ''a@x.com'',
          SetStatus ''Sending RCPT TO...'', Rcpt ''b@y.com'',
          SetStatus ''Sending DATA...'', Data,
          Write (''Subject: one'' @ CRLF @ ''From: a@x.com'' @ CRLF @ ''SUBJECT: two'' @ CRLF @
                 ''To: b@y.com'' @ CRLF @ ''Message-ID: <m>'' @ CRLF @ ''Date: D'' @ CRLF @ CRLF),
          SetStatus ''Email sent successfully'', Close_w, Quit, Close_conn]"
  by code_simp

text \<open>
  Claim C9, amended: for every message that passes the address validation and whose
  normalized text holds the blank-line separator, \<open>sendEmail\<close> hands to the session, and
  so to the writer, the original header lines in order with the synthesized Message-ID
  and Date lines inserted after every line that begins, in any case, with \<open>subject:\<close>,
  then the separator and the body; for a text without the separator it hands on the
  text with the synthesized lines appended once at its end.
\<close>

theorem sendEmail_l1418_splices_after_every_subject:
  fixes g :: GUI and ToLower TrimSpace :: "string \<Rightarrow> string" and msgid date :: string
  defines "rawContent \<equiv> normalizeLineEndings (messageEnt g)"
  defines "headers \<equiv> parseHeaders ToLower TrimSpace rawContent"
  defines "mid \<equiv> messageIDHeader headers msgid"
  defines "dat \<equiv> dateHeader headers date"
  assumes f: "extractEmailFromHeaders ToLower headers ''from'' = Inr from"
    and t: "extractEmailFromHeaders ToLower headers ''to'' = Inr to"
    and v: "isValidEmail from" "isValidEmail to"
  shows "(SplitN2 rawContent (CRLF @ CRLF) = [h, b] \<longrightarrow>
           sendEmail_l1418 ToLower TrimSpace msgid date net g =
             Inr (SetStatus ''Starting SMTP session...'' #
                  smtp_session net g from to
                    (Join (concat (map (\<lambda>l. if HasPrefix (ToLower l) ''subject:''
                                             then l # synthesized mid dat else [l])
                                      (Split h CRLF))) CRLF
                     @ CRLF @ CRLF @ b))) \<and>
         (Index rawContent (CRLF @ CRLF) < 0 \<longrightarrow>
           sendEmail_l1418 ToLower TrimSpace msgid date net g =
             Inr (SetStatus ''Starting SMTP session...'' #
                  smtp_session net g from to (rawContent @ CRLF @ mid @ dat @ CRLF)))"
proof (intro conjI impI)
  have send: "sendEmail_l1418 ToLower TrimSpace msgid date net g =
                Inr (SetStatus ''Starting SMTP session...'' #
                     smtp_session net g from to
                       (sendEmail_l1418_fullMessage ToLower rawContent mid dat))"
    using f t v
    by (simp add: sendEmail_l1418_def sendEmail_with_def Let_def rawContent_def headers_def
          mid_def dat_def)
  {
    assume "SplitN2 rawContent (CRLF @ CRLF) = [h, b]"
    then show "sendEmail_l1418 ToLower TrimSpace msgid date net g =
             Inr (SetStatus ''Starting SMTP session...'' #
                  smtp_session net g from to
                    (Join (concat (map (\<lambda>l. if HasPrefix (ToLower l) ''subject:''
                                             then l # synthesized mid dat else [l])
                                      (Split h CRLF))) CRLF
                     @ CRLF @ CRLF @ b))"
      by (simp add: send sendEmail_l1418_fullMessage_spliced)
  }
  {
    assume "Index rawContent (CRLF @ CRLF) < 0"
    then show "sendEmail_l1418 ToLower TrimSpace msgid date net g =
             Inr (SetStatus ''Starting SMTP session...'' #
                  smtp_session net g from to (rawContent @ CRLF @ mid @ dat @ CRLF))"
      by (simp add: send sendEmail_l1418_fullMessage_no_separator)
  }
qed

theorem sendEmail_l1418_splices_after_every_subject_witness:
  "sendEmail_l1418 asciiToLower asciiTrimSpace ''<m>'' ''D'' all_succeed
     \<lparr>messageEnt = ''Subject: one'' @ [LF] @ ''From: a@x.com'' @ [LF] @ ''SUBJECT: two'' @
                   [LF] @ ''To: b@y.com'' @ [LF, LF] @ ''body'',
      hostEnt = ''h'', portEnt = ''25'', usernameEnt = [], passwordEnt = [],
      socksPortEnt = ''9050''\<rparr>
   = Inr (SetStatus ''Starting SMTP session...'' #
          smtp_session all_succeed
            \<lparr>messageEnt = ''Subject: one'' @ [LF] @ ''From: a@x.com'' @ [LF] @ ''SUBJECT: two'' @
                          [LF] @ ''To: b@y.com'' @ [LF, LF] @ ''body'',
             hostEnt = ''h'', portEnt = ''25'', usernameEnt = [], passwordEnt = [],
             socksPortEnt = ''9050''\<rparr>
            ''a@x.com'' ''b@y.com''
            (''Subject: one'' @ CRLF @ ''Message-ID: <m>'' @ CRLF @ ''Date: D'' @ CRLF @
             ''From: a@x.com'' @ CRLF @
             ''SUBJECT: two'' @ CRLF @ ''Message-ID: <m>'' @ CRLF @ ''Date: D'' @ CRLF @
             ''To: b@y.com'' @ CRLF @ CRLF @ ''body'')) \<and>
   sendEmail_l1418 asciiToLower asciiTrimSpace ''<m>'' ''D'' all_succeed
     \<lparr>messageEnt = ''Subject: one'' @ [LF] @ ''From: a@x.com'' @ [LF] @ ''To: b@y.com'',
      hostEnt = ''h'', portEnt = ''25'', usernameEnt = [], passwordEnt = [],
      socksPortEnt = ''9050''\<rparr>
   = Inr (SetStatus ''Starting SMTP session...'' #
          smtp_session all_succeed
            \<lparr>messageEnt = ''Subject: one'' @ [LF] @ ''From: a@x.com'' @ [LF] @ ''To: b@y.com'',
             hostEnt = ''h'', portEnt = ''25'', usernameEnt = [], passwordEnt = [],
             socksPortEnt = ''9050''\<rparr>
            ''a@x.com'' ''b@y.com''
            (''Subject: one'' @ CRLF @ ''From: a@x.com'' @ CRLF @ ''To: b@y.com'' @ CRLF @
             ''Message-ID: <m>'' @ CRLF @ ''Date: D'' @ CRLF @ CRLF))"
proof -
  let ?g = "\<lparr>messageEnt = ''Subject: one'' @ [LF] @ ''From: a@x.com'' @ [LF] @ ''SUBJECT: two'' @
                   [LF] @ ''To: b@y.com'' @ [LF, LF] @ ''body'',
      hostEnt = ''h'', portEnt = ''25'', usernameEnt = [], passwordEnt = [],
      socksPortEnt = ''9050''\<rparr>"
  let ?raw = "normalizeLineEndings (messageEnt ?g)"
  let ?hd = "parseHeaders asciiToLower asciiTrimSpace ?raw"
  have f: "extractEmailFromHeaders asciiToLower ?hd ''from'' = Inr ''a@x.com''" by code_simp
  have t: "extractEmailFromHeaders asciiToLower ?hd ''to'' = Inr ''b@y.com''" by code_simp
  have vf: "isValidEmail ''a@x.com''" by code_simp
  have vt: "isValidEmail ''b@y.com''" by code_simp
  have parts: "SplitN2 ?raw (CRLF @ CRLF) =
      [''Subject: one'' @ CRLF @ ''From: a@x.com'' @ CRLF @ ''SUBJECT: two'' @ CRLF @
       ''To: b@y.com'', ''body'']"
    by code_simp
  have msg: "Join (concat (map (\<lambda>l. if HasPrefix (asciiToLower l) ''subject:''
                  then l # synthesized (messageIDHeader ?hd ''<m>'') (dateHeader ?hd ''D'')
                  else [l])
              (Split (''Subject: one'' @ CRLF @ ''From: a@x.com'' @ CRLF @ ''SUBJECT: two'' @
                      CRLF @ ''To: b@y.com'') CRLF))) CRLF @ CRLF @ CRLF @ ''body''
        = ''Subject: one'' @ CRLF @ ''Message-ID: <m>'' @ CRLF @ ''Date: D'' @ CRLF @
          ''From: a@x.com'' @ CRLF @
          ''SUBJECT: two'' @ CRLF @ ''Message-ID: <m>'' @ CRLF @ ''Date: D'' @ CRLF @
          ''To: b@y.com'' @ CRLF @ CRLF @ ''body''"
    by code_simp
  note splice = sendEmail_l1418_splices_after_every_subject [OF f t vf vt,
      where msgid = "''<m>''" and date = "''D''" and net = all_succeed]
  have a: "sendEmail_l1418 asciiToLower asciiTrimSpace ''<m>'' ''D'' all_succeed ?g =
      Inr (SetStatus ''Starting SMTP session...'' #
           smtp_session all_succeed ?g ''a@x.com'' ''b@y.com''
            (Join (concat (map (\<lambda>l. if HasPrefix (asciiToLower l) ''subject:''
                  then l # synthesized (messageIDHeader ?hd ''<m>'') (dateHeader ?hd ''D'')
                  else [l])
              (Split (''Subject: one'' @ CRLF @ ''From: a@x.com'' @ CRLF @ ''SUBJECT: two'' @
                      CRLF @ ''To: b@y.com'') CRLF))) CRLF @ CRLF @ CRLF @ ''body''))"
    by (rule mp [OF conjunct1 [OF splice] parts])
  let ?g2 = "\<lparr>messageEnt = ''Subject: one'' @ [LF] @ ''From: a@x.com'' @ [LF] @ ''To: b@y.com'',
      hostEnt = ''h'', portEnt = ''25'', usernameEnt = [], passwordEnt = [],
      socksPortEnt = ''9050''\<rparr>"
  let ?raw2 = "normalizeLineEndings (messageEnt ?g2)"
  let ?hd2 = "parseHeaders asciiToLower asciiTrimSpace ?raw2"
  have f2: "extractEmailFromHeaders asciiToLower ?hd2 ''from'' = Inr ''a@x.com''" by code_simp
  have t2: "extractEmailFromHeaders asciiToLower ?hd2 ''to'' = Inr ''b@y.com''" by code_simp
  have nosep: "Index ?raw2 (CRLF @ CRLF) < 0" by code_simp
  have msg2: "?raw2 @ CRLF @ messageIDHeader ?hd2 ''<m>'' @ dateHeader ?hd2 ''D'' @ CRLF
        = ''Subject: one'' @ CRLF @ ''From: a@x.com'' @ CRLF @ ''To: b@y.com'' @ CRLF @
          ''Message-ID: <m>'' @ CRLF @ ''Date: D'' @ CRLF @ CRLF"
    by code_simp
  note append = sendEmail_l1418_splices_after_every_subject [OF f2 t2 vf vt,
      where msgid = "''<m>''" and date = "''D''" and net = all_succeed]
  have b: "sendEmail_l1418 asciiToLower asciiTrimSpace ''<m>'' ''D'' all_succeed ?g2 =
      Inr (SetStatus ''Starting SMTP session...'' #
           smtp_session all_succeed ?g2 ''a@x.com'' ''b@y.com''
             (?raw2 @ CRLF @ messageIDHeader ?hd2 ''<m>'' @ dateHeader ?hd2 ''D'' @ CRLF))"
    by (rule mp [OF conjunct2 [OF append] nosep])
  from a b show ?thesis by (simp only: msg msg2 simp_thms)
qed


section \<open>Validation before the session\<close>

text \<open>When both addresses are extracted and one of them fails \<open>isValidEmail\<close>, both
  revisions show the error dialog and do nothing else: no proxy, dial or later stage
  occurs in the trace.\<close>

lemma sendEmail_invalid_when_extracted:
  assumes "extractEmailFromHeaders ToLower
             (parseHeaders ToLower TrimSpace (normalizeLineEndings (messageEnt g))) ''from''
           = Inr from"
    and "extractEmailFromHeaders ToLower
             (parseHeaders ToLower TrimSpace (normalizeLineEndings (messageEnt g))) ''to''
           = Inr to"
    and "\<not> isValidEmail from \<or> \<not> isValidEmail to"
  shows "sendEmail_l761 ToLower TrimSpace msgid date net g = Inr [ShowError invalid_address] \<and>
         sendEmail_l1418 ToLower TrimSpace msgid date net g = Inr [ShowError invalid_address]"
  using assms
  by (auto simp: sendEmail_l761_def sendEmail_l1418_def sendEmail_with_def Let_def)

text \<open>
  Claim C4: whenever the extracted From address or the extracted To address fails
  \<open>isValidEmail\<close>, the send reports the invalid-address error and stops before any
  network action. Both addresses are extracted before either is checked. In the text
  below the From address \<open>abc\<close> is extracted and is not valid, and the To value \<open>x> <\<close>
  makes the second extraction panic on the slice with bounds 3 and 2: both revisions
  stop with the panic, and the invalid-address error is never shown.
\<close>

theorem sendEmail_invalid_from_panics:
  "extractEmailFromHeaders asciiToLower
     (parseHeaders asciiToLower asciiTrimSpace
        (normalizeLineEndings (''From: abc'' @ [LF] @ ''To: x> <'' @ [LF, LF] @ ''hi'')))
     ''from'' = Inr ''abc'' \<and>
   isValidEmail ''abc'' = False \<and>
   sendEmail_l761 asciiToLower asciiTrimSpace ''<m>'' ''D'' all_succeed
     \<lparr>messageEnt = ''From: abc'' @ [LF] @ ''To: x> <'' @ [LF, LF] @ ''hi'',
      hostEnt = ''h'', portEnt = ''25'', usernameEnt = [], passwordEnt = [],
      socksPortEnt = ''9050''\<rparr> = Inl slice_bounds_out_of_range \<and>
   sendEmail_l1418 asciiToLower asciiTrimSpace ''<m>'' ''D'' all_succeed
     \<lparr>messageEnt = ''From: abc'' @ [LF] @ ''To: x> <'' @ [LF, LF] @ ''hi'',
      hostEnt = ''h'', portEnt = ''25'', usernameEnt = [], passwordEnt = [],
      socksPortEnt = ''9050''\<rparr> = Inl slice_bounds_out_of_range"
  by code_simp


section \<open>Hex encoding\<close>

lemma nibble_join: "push_bit 4 (drop_bit 4 v) OR (v AND 0x0f) = (v::byte)"
proof -
  have m: "(0x0f::byte) = mask 4" by (simp add: mask_eq_exp_minus_1)
  show ?thesis unfolding m
    by (rule bit_word_eqI) (auto simp: bit_simps)
qed

lemma hi_nibble_lt: "unat (drop_bit 4 (v::byte)) < 16"
proof -
  have "unat v < 2 ^ 8" using unsigned_less [of v] by simp
  then have "unat v div 16 < 16" by simp
  then show ?thesis by (simp add: drop_bit_eq_div unat_div)
qed

lemma lo_nibble_lt: "unat ((v::byte) AND 0x0f) < 16"
proof -
  have "unat (v AND 0x0f) \<le> unat (0x0f :: byte)"
    by (rule word_and_le1 [THEN word_le_nat_alt [THEN iffD1]])
  then show ?thesis by simp
qed

lemma reverseHexTable_hextable: "n < 16 \<Longrightarrow> reverseHexTable (hextable ! n) = of_nat n"
proof -
  have "\<forall>i \<in> set [0..<16]. reverseHexTable (hextable ! i) = of_nat i"
    by (simp add: upt_rec hextable_def reverseHexTable_def)
  moreover assume "n < 16"
  ultimately show ?thesis by simp
qed

lemma hextable_mem: "n < 16 \<Longrightarrow> hextable ! n \<in> set hextable"
  by (rule nth_mem) (simp add: hextable_def)

lemma length_EncodeToString: "length (EncodeToString src) = 2 * length src"
  by (induction src) simp_all

lemma set_EncodeToString: "set (EncodeToString src) \<subseteq> set hextable"
  by (induction src) (simp_all add: hextable_mem hi_nibble_lt lo_nibble_lt)

text \<open>Decoding undoes encoding, so encoding is injective.\<close>

lemma DecodeString_EncodeToString: "DecodeString (EncodeToString src) = Inr src"
proof (induction src)
  case Nil
  show ?case by simp
next
  case (Cons v src)
  have hi: "reverseHexTable (hextable ! unat (drop_bit 4 v)) = drop_bit 4 v"
    by (simp add: reverseHexTable_hextable hi_nibble_lt)
  have lo: "reverseHexTable (hextable ! unat (v AND 0x0f)) = v AND 0x0f"
    by (simp add: reverseHexTable_hextable lo_nibble_lt)
  have hi_ok: "\<not> drop_bit 4 v > 0x0f"
    using hi_nibble_lt [of v] by (simp add: word_less_nat_alt)
  have lo_ok: "\<not> (v AND 0x0f) > 0x0f"
    using lo_nibble_lt [of v] by (simp add: word_less_nat_alt)
  show ?case
    using hi_ok lo_ok by (simp add: hi lo Cons.IH nibble_join del: push_bit_and)
qed

lemma EncodeToString_inj: "EncodeToString a = EncodeToString b \<Longrightarrow> a = b"
proof -
  assume "EncodeToString a = EncodeToString b"
  then have "DecodeString (EncodeToString a) = DecodeString (EncodeToString b)" by simp
  then show "a = b" by (simp add: DecodeString_EncodeToString)
qed

lemma length_DecodeString: "DecodeString s = Inr dst \<Longrightarrow> length s = 2 * length dst"
  by (induction s arbitrary: dst rule: DecodeString.induct)
     (auto simp: Let_def split: if_splits sum.splits)

lemma DecodeString_hex:
  "DecodeString s = Inr dst \<Longrightarrow> \<forall>c \<in> set s. reverseHexTable c \<le> 0x0f"
  by (induction s arbitrary: dst rule: DecodeString.induct)
     (auto simp: Let_def not_less split: if_splits sum.splits)

lemma DecodeString_not_hex:
  "c \<in> set s \<Longrightarrow> reverseHexTable c > 0x0f \<Longrightarrow> \<exists>err. DecodeString s = Inl err"
proof (cases "DecodeString s")
  case (Inl err)
  then show ?thesis by blast
next
  case (Inr dst)
  assume "c \<in> set s" and "reverseHexTable c > 0x0f"
  with DecodeString_hex [OF Inr] show ?thesis by (auto simp: not_less [symmetric])
qed

text \<open>The decoder reads a hex digit and its upper-case form as the same value.\<close>

lemma reverseHexTable_toUpperHex: "reverseHexTable (toUpperHex c) = reverseHexTable c"
  by (auto simp: reverseHexTable_def toUpperHex_def Let_def of_char_of)

lemma DecodeString_toUpperHex:
  "DecodeString s = Inr dst \<Longrightarrow> DecodeString (map toUpperHex s) = Inr dst"
  by (induction s arbitrary: dst rule: DecodeString.induct)
     (auto simp: Let_def reverseHexTable_toUpperHex split: if_splits sum.splits)


section \<open>Token generation and verification\<close>

lemma length_XORKeyStream:
  "XORKeyStream P cipher dst src = Inr out \<Longrightarrow> length out = length dst"
  by (auto simp: XORKeyStream_def split: if_splits)

text \<open>With a 12-byte buffer and the first 12 bytes of the digest, the XOR never panics.\<close>

lemma XORKeyStream_12:
  "\<exists>ct. XORKeyStream P cipher (replicate 12 0) (take 12 h) = Inr ct \<and> length ct = 12"
  by (auto simp: XORKeyStream_def)

lemma example_token_accepted:
  "esubtest example_primitives
     \<lparr>key = ''secret'', subject = ''a0b1c2d3e4f5060708090a0b111013121514171619181b1a''\<rparr>
   = Inr True"
  by (simp add: esubtest_def example_primitives_def deriveKey_def NewUnauthenticatedCipher_def
        XORKeyStream_def reverseHexTable_def hextable_def upt_rec drop_bit_eq_div)

text \<open>
  Claim C3: for every key and every 12-byte nonce, \<open>esubtest\<close> accepts the token that
  \<open>esubgen\<close> made with the same key, and the token is 48 hex characters that encode the
  nonce followed by the 12-byte ciphertext. The only assumption is that the key
  derivation returns the 32 bytes it is asked for.
\<close>

theorem esubgen_esubtest_roundtrip:
  assumes k: "length (deriveKey P e) = 32" and n: "length nonce = 12"
  shows "\<exists>ciphertext token.
           esubgen P (Some nonce) e = Inr token \<and>
           token = EncodeToString (nonce @ ciphertext) \<and>
           length ciphertext = 12 \<and>
           length token = 48 \<and>
           set token \<subseteq> set hextable \<and>
           esubtest P (e\<lparr>subject := token\<rparr>) = Inr True"
proof -
  let ?cipher = "(deriveKey P e, nonce)"
  obtain ct where ct: "XORKeyStream P ?cipher (replicate 12 0)
                         (take 12 (sha3_Sum256 P (bytes ''text''))) = Inr ct"
    and len: "length ct = 12"
    using XORKeyStream_12 by blast
  let ?token = "EncodeToString (nonce @ ct)"
  have new: "NewUnauthenticatedCipher (deriveKey P e) nonce = Inr ?cipher"
    using k n by (simp add: NewUnauthenticatedCipher_def)
  have gen: "esubgen P (Some nonce) e = Inr ?token"
    by (simp add: esubgen_def new ct)
  have l48: "length ?token = 48"
    using n len by (simp add: length_EncodeToString)
  have dk: "deriveKey P (e\<lparr>subject := ?token\<rparr>) = deriveKey P e"
    by (simp add: deriveKey_def)
  have test: "esubtest P (e\<lparr>subject := ?token\<rparr>) = Inr True"
    using n len l48
    by (simp add: esubtest_def DecodeString_EncodeToString dk new ct)
  from gen len l48 test set_EncodeToString show ?thesis by blast
qed

theorem esubgen_esubtest_roundtrip_witness:
  "\<exists>ciphertext token.
     esubgen example_primitives
       (Some [0xa0, 0xb1, 0xc2, 0xd3, 0xe4, 0xf5, 6, 7, 8, 9, 10, 11])
       \<lparr>key = ''secret'', subject = []\<rparr> = Inr token \<and>
     token = EncodeToString ([0xa0, 0xb1, 0xc2, 0xd3, 0xe4, 0xf5, 6, 7, 8, 9, 10, 11] @ ciphertext) \<and>
     length ciphertext = 12 \<and>
     length token = 48 \<and>
     set token \<subseteq> set hextable \<and>
     esubtest example_primitives (\<lparr>key = ''secret'', subject = []\<rparr>\<lparr>subject := token\<rparr>) = Inr True"
proof -
  have k: "length (deriveKey example_primitives \<lparr>key = ''secret'', subject = []\<rparr>) = 32"
    by (simp add: deriveKey_def example_primitives_def)
  have n: "length [0xa0, 0xb1, 0xc2, 0xd3, 0xe4, 0xf5, 6, 7, 8, 9, 10, 11 :: byte] = 12"
    by simp
  from esubgen_esubtest_roundtrip [OF k n] show ?thesis .
qed

text \<open>
  Claim C6: \<open>esubtest\<close> returns false, and neither fails nor panics, on every token that
  is not exactly 48 hex characters or does not decode; it accepts only when the
  recomputed 12-byte ciphertext equals the supplied one. The first conjunct says that
  the function always returns; the second covers a wrong length, a byte that is not a
  hex digit, and a decoding error; the third is what acceptance implies.
\<close>

theorem esubtest_rejects_malformed:
  "(\<exists>b. esubtest P e = Inr b) \<and>
   (length (subject e) \<noteq> 48 \<or> (\<exists>c \<in> set (subject e). reverseHexTable c > 0x0f) \<or>
      (\<exists>err. DecodeString (subject e) = Inl err) \<longrightarrow> esubtest P e = Inr False) \<and>
   (esubtest P e = Inr True \<longrightarrow>
      (\<exists>esubBytes cipher expectedCiphertext.
          length (subject e) = 48 \<and>
          DecodeString (subject e) = Inr esubBytes \<and> length esubBytes = 24 \<and>
          NewUnauthenticatedCipher (deriveKey P e) (take 12 esubBytes) = Inr cipher \<and>
          XORKeyStream P cipher (replicate 12 0) (take 12 (sha3_Sum256 P (bytes ''text'')))
            = Inr expectedCiphertext \<and>
          length expectedCiphertext = 12 \<and>
          expectedCiphertext = drop 12 esubBytes))"
proof (intro conjI impI)
  show "\<exists>b. esubtest P e = Inr b"
    using XORKeyStream_12 [of P]
    by (auto simp: esubtest_def Let_def split: sum.splits) (metis Inl_Inr_False)
next
  assume "length (subject e) \<noteq> 48 \<or> (\<exists>c \<in> set (subject e). reverseHexTable c > 0x0f) \<or>
      (\<exists>err. DecodeString (subject e) = Inl err)"
  then have "length (subject e) \<noteq> 48 \<or> (\<exists>err. DecodeString (subject e) = Inl err)"
    using DecodeString_not_hex [of _ "subject e"] by blast
  then show "esubtest P e = Inr False"
    by (auto simp: esubtest_def)
next
  assume "esubtest P e = Inr True"
  then show "\<exists>esubBytes cipher expectedCiphertext.
          length (subject e) = 48 \<and>
          DecodeString (subject e) = Inr esubBytes \<and> length esubBytes = 24 \<and>
          NewUnauthenticatedCipher (deriveKey P e) (take 12 esubBytes) = Inr cipher \<and>
          XORKeyStream P cipher (replicate 12 0) (take 12 (sha3_Sum256 P (bytes ''text'')))
            = Inr expectedCiphertext \<and>
          length expectedCiphertext = 12 \<and>
          expectedCiphertext = drop 12 esubBytes"
    by (auto simp: esubtest_def Let_def length_XORKeyStream
             split: if_splits sum.splits dest!: EncodeToString_inj dest: length_XORKeyStream)
qed

theorem esubtest_rejects_malformed_witness:
  "esubtest example_primitives \<lparr>key = ''secret'', subject = ''a0b1''\<rparr> = Inr False \<and>
   esubtest example_primitives
     \<lparr>key = ''secret'', subject = ''g0b1c2d3e4f5060708090a0b111013121514171619181b1a''\<rparr>
     = Inr False \<and>
   (\<exists>esubBytes. DecodeString ''a0b1c2d3e4f5060708090a0b111013121514171619181b1a''
        = Inr esubBytes \<and> length esubBytes = 24)"
proof -
  let ?short = "\<lparr>key = ''secret'', subject = ''a0b1''\<rparr>"
  let ?nonhex = "\<lparr>key = ''secret'',
                  subject = ''g0b1c2d3e4f5060708090a0b111013121514171619181b1a''\<rparr>"
  let ?good = "\<lparr>key = ''secret'',
                subject = ''a0b1c2d3e4f5060708090a0b111013121514171619181b1a''\<rparr>"
  have "length (subject ?short) \<noteq> 48" by simp
  with esubtest_rejects_malformed [of example_primitives ?short]
  have a: "esubtest example_primitives ?short = Inr False" by blast
  have "CHR ''g'' \<in> set (subject ?nonhex) \<and> reverseHexTable (CHR ''g'') > 0x0f"
    by (simp add: reverseHexTable_def)
  with esubtest_rejects_malformed [of example_primitives ?nonhex]
  have b: "esubtest example_primitives ?nonhex = Inr False" by blast
  from esubtest_rejects_malformed [of example_primitives ?good] example_token_accepted
  have c: "\<exists>esubBytes. DecodeString (subject ?good) = Inr esubBytes \<and> length esubBytes = 24"
    by blast
  from a b c show ?thesis by simp
qed

text \<open>
  Claim C10: verification does not depend on the case of the hex digits: when \<open>esubtest\<close>
  accepts a token, it accepts the token with its hex digits in upper case, for the same
  key.
\<close>

theorem esubtest_uppercase:
  assumes "esubtest P e = Inr True"
  shows "esubtest P (e\<lparr>subject := map toUpperHex (subject e)\<rparr>) = Inr True"
proof -
  have dk: "deriveKey P (e\<lparr>subject := map toUpperHex (subject e)\<rparr>) = deriveKey P e"
    by (simp add: deriveKey_def)
  from assms show ?thesis
    by (auto simp: esubtest_def Let_def dk DecodeString_toUpperHex
             split: if_splits sum.splits)
qed

theorem esubtest_uppercase_witness:
  "esubtest example_primitives
     \<lparr>key = ''secret'', subject = ''a0b1c2d3e4f5060708090a0b111013121514171619181b1a''\<rparr>
     = Inr True \<and>
   esubtest example_primitives
     \<lparr>key = ''secret'', subject = ''A0B1C2D3E4F5060708090A0B111013121514171619181B1A''\<rparr>
     = Inr True"
proof -
  have up: "map toUpperHex ''a0b1c2d3e4f5060708090a0b111013121514171619181b1a''
              = ''A0B1C2D3E4F5060708090A0B111013121514171619181B1A''"
    by code_simp
  from esubtest_uppercase [OF example_token_accepted] example_token_accepted up
  show ?thesis by simp
qed


section \<open>Shape of the message identifier\<close>

lemma decimal_digit_char_of: "d < 10 \<Longrightarrow> decimal_digit (char_of (48 + d :: nat))"
  by (simp add: decimal_digit_def of_char_of)

lemma digits_nonempty: "digits n \<noteq> []"
  by (subst digits.simps) simp

lemma digits_decimal: "c \<in> set (digits n) \<Longrightarrow> decimal_digit c"
proof (induction n rule: digits.induct)
  case (1 n)
  show ?case
  proof (cases "n < 10")
    case True
    with "1.prems" show ?thesis
      by (subst (asm) digits.simps) (simp add: decimal_digit_char_of)
  next
    case False
    with "1.prems" have "c \<in> set (digits (n div 10)) \<or> c = char_of (48 + n mod 10)"
      by (subst (asm) digits.simps) auto
    with False "1.IH" show ?thesis
      by (auto simp: decimal_digit_char_of)
  qed
qed

text \<open>\<open>digits n\<close> is the decimal numeral of \<open>n\<close>: reading it back gives \<open>n\<close>.\<close>

lemma digits_value: "foldl (\<lambda>a c. 10 * a + (of_char c - 48)) 0 (digits n) = n"
proof (induction n rule: digits.induct)
  case (1 n)
  show ?case
  proof (cases "n < 10")
    case True
    then show ?thesis by (subst digits.simps) (simp add: of_char_of)
  next
    case False
    have "n mod 10 < 10" by simp
    then have "(48 + n mod 10) mod 256 = 48 + n mod 10" by simp
    with False "1.IH" show ?thesis
      by (subst digits.simps) (simp add: of_char_of)
  qed
qed

lemma alphanumeric_class:
  "n < 36 \<Longrightarrow> lower_letter (alphanumeric ! n) \<or> decimal_digit (alphanumeric ! n)"
proof -
  have "list_all (\<lambda>c. lower_letter c \<or> decimal_digit c) alphanumeric"
    by (simp add: alphanumeric_def lower_letter_def decimal_digit_def)
  moreover assume "n < 36"
  ultimately show ?thesis
    by (simp add: list_all_length alphanumeric_def)
qed

lemma letter_class: "n < 26 \<Longrightarrow> lower_letter (char_of (unat ((0x61 :: byte) + of_nat n)))"
proof -
  assume n: "n < 26"
  then have "unat ((0x61 :: byte) + of_nat n) = 97 + n"
    by (simp add: unat_word_ariths unat_of_nat)
  with n show ?thesis by (simp add: lower_letter_def of_char_of)
qed

text \<open>
  Claim C7: every string \<open>generateMessageID\<close> returns has the shape
  \<open><[a-z0-9]{10}\.\d+@[a-z]{5}\.[a-z]{2}>\<close>: an opening bracket, 10 characters that are
  lower-case letters or digits, a dot, the decimal Unix timestamp, \<open>@\<close>, 5 lower-case
  letters, a dot, 2 lower-case letters, and a closing bracket. The assumptions are the
  range of \<open>rand.Int\<close> and a clock that is not before the epoch.
\<close>

theorem generateMessageID_shape:
  assumes r: "\<forall>k. rand_Int k 36 < 36 \<and> rand_Int k 26 < 26" and t: "0 \<le> unixTime"
  shows "\<exists>r10 ts h5 t2.
           generateMessageID rand_Int unixTime =
             ''<'' @ r10 @ ''.'' @ ts @ ''@'' @ h5 @ ''.'' @ t2 @ ''>'' \<and>
           length r10 = 10 \<and> (\<forall>c \<in> set r10. lower_letter c \<or> decimal_digit c) \<and>
           ts = digits (nat unixTime) \<and> ts \<noteq> [] \<and> (\<forall>c \<in> set ts. decimal_digit c) \<and>
           length h5 = 5 \<and> (\<forall>c \<in> set h5. lower_letter c) \<and>
           length t2 = 2 \<and> (\<forall>c \<in> set t2. lower_letter c)"
proof -
  let ?r10 = "map (\<lambda>i. alphanumeric ! rand_Int i 36) [0..<10]"
  let ?h5 = "map (\<lambda>i. char_of (unat ((0x61 :: byte) + of_nat (rand_Int (10 + i) 26)))) [0..<5]"
  let ?t2 = "map (\<lambda>i. char_of (unat ((0x61 :: byte) + of_nat (rand_Int (15 + i) 26)))) [0..<2]"
  let ?ts = "digits (nat unixTime)"
  have eq: "generateMessageID rand_Int unixTime =
             ''<'' @ ?r10 @ ''.'' @ ?ts @ ''@'' @ ?h5 @ ''.'' @ ?t2 @ ''>''"
    using t by (simp add: generateMessageID_def FormatInt_def Let_def)
  have r10: "\<forall>c \<in> set ?r10. lower_letter c \<or> decimal_digit c"
    using r by (auto simp: alphanumeric_class simp del: upt.simps)
  have h5: "\<forall>c \<in> set ?h5. lower_letter c"
    using r by (auto simp: letter_class simp del: upt.simps)
  have t2: "\<forall>c \<in> set ?t2. lower_letter c"
    using r by (auto simp: letter_class simp del: upt.simps)
  have ts: "?ts \<noteq> [] \<and> (\<forall>c \<in> set ?ts. decimal_digit c)"
    by (simp add: digits_nonempty digits_decimal)
  have l: "length ?r10 = 10 \<and> length ?h5 = 5 \<and> length ?t2 = 2" by simp
  show ?thesis
    apply (rule exI [of _ ?r10], rule exI [of _ ?ts], rule exI [of _ ?h5], rule exI [of _ ?t2])
    using eq r10 h5 t2 ts l by blast
qed

theorem generateMessageID_shape_witness:
  "\<exists>r10 ts h5 t2.
     generateMessageID (\<lambda>k max. (7 * k + 3) mod max) 1700000000 =
       ''<'' @ r10 @ ''.'' @ ts @ ''@'' @ h5 @ ''.'' @ t2 @ ''>'' \<and>
     length r10 = 10 \<and> (\<forall>c \<in> set r10. lower_letter c \<or> decimal_digit c) \<and>
     ts = digits (nat 1700000000) \<and> ts \<noteq> [] \<and> (\<forall>c \<in> set ts. decimal_digit c) \<and>
     length h5 = 5 \<and> (\<forall>c \<in> set h5. lower_letter c) \<and>
     length t2 = 2 \<and> (\<forall>c \<in> set t2. lower_letter c)"
proof -
  have r: "\<forall>k. (7 * k + 3) mod 36 < (36::nat) \<and> (7 * k + 3) mod 26 < (26::nat)" by simp
  have t: "(0::int) \<le> 1700000000" by simp
  from generateMessageID_shape [of "\<lambda>k max. (7 * k + 3) mod max" 1700000000, OF r t]
  show ?thesis .
qed

end
